theory Spec2Isabelle
  imports Complex_Main "HOL-Library.Sublist"
begin

section \<open>Data model (types.ts)\<close>

text \<open>
  The interfaces and enums of \<^verbatim>\<open>types.ts\<close>. JavaScript strings are modelled as
  \<^typ>\<open>string\<close>, the \<^verbatim>\<open>number\<close> of \<^verbatim>\<open>confidence\<close> as a real, the optional
  \<^verbatim>\<open>description\<close> as an option, and the millisecond clock \<^verbatim>\<open>Date.now()\<close> as a
  natural number. The fields \<^verbatim>\<open>id\<close> and \<^verbatim>\<open>text\<close> of \<^verbatim>\<open>HistoryItem\<close> carry the
  suffix \<open>_item\<close>, since both names are taken in Isabelle.
\<close>

record SignDetectionResult =
  isSign :: bool
  translation :: string
  confidence :: real
  description :: "string option"

datatype AppState = IDLE | SCANNING | RECORDING | PROCESSING | ERROR

datatype DetectionMode = WORD | SENTENCE

datatype SignLanguage = ASL | ISL

record HistoryItem =
  id_item :: string
  text_item :: string
  timestamp :: nat
  mode :: DetectionMode


section \<open>The inference wrappers (geminiService.ts)\<close>

subsection \<open>String helpers\<close>

text \<open>\<^verbatim>\<open>data.split(',')\<close>: the pieces of a string between the occurrences of a separator.\<close>

fun split :: "char \<Rightarrow> string \<Rightarrow> string list" where
  "split sep [] = [] # []"
| "split sep (c # cs) =
     (if c = sep then [] # split sep cs
      else (case split sep cs of [] \<Rightarrow> [c] # [] | p # ps \<Rightarrow> (c # p) # ps))"

text \<open>
  \<^verbatim>\<open>const cleanBase64 = (data) => data.split(',')[1] || data\<close>: the second piece when
  there is one and it is not the empty string (which is falsy), the input otherwise.
\<close>

definition cleanBase64 :: "string \<Rightarrow> string" where
  "cleanBase64 data =
     (case split (CHR '','') data of
        p0 # p1 # ps \<Rightarrow> (if p1 = [] then data else p1)
      | _ \<Rightarrow> data)"

text \<open>The characters of the regular expression class \<^verbatim>\<open>\s\<close> that fit in one byte.\<close>

definition isSpace :: "char \<Rightarrow> bool" where
  "isSpace c = ((of_char c :: nat) \<in> {9, 10, 11, 12, 13, 32, 160})"

definition fence :: string where
  "fence = replicate 3 (CHR 0x60)"

text \<open>
  \<^verbatim>\<open>cleanJson\<close>: the empty string for a falsy text; otherwise a leading Markdown fence
  with the word json and the white space after it is removed
  (\<^verbatim>\<open>/^```json\s*/\<close>), then a closing fence at the very end together with the white
  space before it (\<^verbatim>\<open>/\s*```$/\<close>).
\<close>

definition cleanJson :: "string \<Rightarrow> string" where
  "cleanJson text =
     (if text = [] then []
      else
        let opening = fence @ ''json'';
            a = (if take (length opening) text = opening
                 then dropWhile isSpace (drop (length opening) text) else text)
        in if length fence \<le> length a \<and> drop (length a - length fence) a = fence
           then rev (dropWhile isSpace (rev (take (length a - length fence) a)))
           else a)"

definition langFull :: "SignLanguage \<Rightarrow> string" where
  "langFull language =
     (if language = ISL then ''Indian Sign Language (ISL)'' else ''American Sign Language (ASL)'')"

subsection \<open>The remote call and the parser\<close>

text \<open>
  The remote service and \<^verbatim>\<open>JSON.parse\<close> are outside the repository. A request is
  the list of image payloads together with the language name of the prompt; the call
  \<^verbatim>\<open>ai.models.generateContent\<close> either fails or gives a response whose \<^verbatim>\<open>text\<close>
  may be undefined. \<^verbatim>\<open>JSON.parse\<close> gives a result or throws a syntax error
  (\<open>None\<close>). Both are parameters of the wrappers.
\<close>

type_synonym request = "string list \<times> string"

datatype response = RequestFailed | Response "string option"

datatype exn = RequestError | NoResponseText | JsonSyntaxError

type_synonym generateContent = "request \<Rightarrow> response"

type_synonym jsonParse = "string \<Rightarrow> SignDetectionResult option"

text \<open>
  The two statements after the request, shared by both wrappers:
  \<^verbatim>\<open>if (!text) throw new Error(...)\<close> (undefined and the empty string are falsy), then
  \<^verbatim>\<open>JSON.parse(cleanJson(text))\<close>.
\<close>

definition readResponse :: "jsonParse \<Rightarrow> response \<Rightarrow> exn + SignDetectionResult" where
  "readResponse parse r =
     (case r of
        RequestFailed \<Rightarrow> Inl RequestError
      | Response None \<Rightarrow> Inl NoResponseText
      | Response (Some text) \<Rightarrow>
          (if text = [] then Inl NoResponseText
           else (case parse (cleanJson text) of
                   None \<Rightarrow> Inl JsonSyntaxError
                 | Some result \<Rightarrow> Inr result)))"

subsection \<open>detectSignLanguage\<close>

text \<open>The body of the \<^verbatim>\<open>try\<close> block: one image, cleaned, and the language name.\<close>

definition detectSignLanguage_try ::
  "generateContent \<Rightarrow> jsonParse \<Rightarrow> string \<Rightarrow> SignLanguage \<Rightarrow> exn + SignDetectionResult" where
  "detectSignLanguage_try generate parse base64Image language =
     readResponse parse (generate ([cleanBase64 base64Image], langFull language))"

definition wordErrorResult :: SignDetectionResult where
  "wordErrorResult =
     \<lparr>isSign = False, translation = [], confidence = 0, description = Some ''Detection Error''\<rparr>"

text \<open>The whole function: the \<^verbatim>\<open>catch\<close> clause turns every exception into one fixed result.\<close>

definition detectSignLanguage ::
  "generateContent \<Rightarrow> jsonParse \<Rightarrow> string \<Rightarrow> SignLanguage \<Rightarrow> SignDetectionResult" where
  "detectSignLanguage generate parse base64Image language =
     (case detectSignLanguage_try generate parse base64Image language of
        Inl error \<Rightarrow> wordErrorResult
      | Inr result \<Rightarrow> result)"

subsection \<open>detectSignSentence\<close>

text \<open>
  \<^verbatim>\<open>xs.filter((_, i) => p(i))\<close>: the elements whose index satisfies the predicate, in
  their order.
\<close>

definition filterIndex :: "(nat \<Rightarrow> bool) \<Rightarrow> 'a list \<Rightarrow> 'a list" where
  "filterIndex p xs = map fst (filter (\<lambda>(x, i). p i) (zip xs [0..<length xs]))"

text \<open>
  \<^verbatim>\<open>base64Images.length > 15 ? base64Images.filter((_, i) => i % Math.ceil(base64Images.length / 15) === 0) : base64Images\<close>.
  The quotient is taken in the reals and rounded up, as \<^verbatim>\<open>Math.ceil\<close> does; an
  array length is below \<open>2^32\<close>, where the double-precision quotient has the same
  ceiling.
\<close>

definition framesToProcess :: "'a list \<Rightarrow> 'a list" where
  "framesToProcess base64Images =
     (if length base64Images > 15
      then filterIndex (\<lambda>i. i mod nat \<lceil>real (length base64Images) / 15\<rceil> = 0) base64Images
      else base64Images)"

definition imageParts :: "string list \<Rightarrow> string list" where
  "imageParts base64Images = map cleanBase64 (framesToProcess base64Images)"

definition detectSignSentence_try ::
  "generateContent \<Rightarrow> jsonParse \<Rightarrow> string list \<Rightarrow> SignLanguage \<Rightarrow> exn + SignDetectionResult" where
  "detectSignSentence_try generate parse base64Images language =
     readResponse parse (generate (imageParts base64Images, langFull language))"

definition sentenceErrorResult :: SignDetectionResult where
  "sentenceErrorResult =
     \<lparr>isSign = False, translation = [], confidence = 0,
      description = Some ''Error processing sentence''\<rparr>"

definition detectSignSentence ::
  "generateContent \<Rightarrow> jsonParse \<Rightarrow> string list \<Rightarrow> SignLanguage \<Rightarrow> SignDetectionResult" where
  "detectSignSentence generate parse base64Images language =
     (case detectSignSentence_try generate parse base64Images language of
        Inl error \<Rightarrow> sentenceErrorResult
      | Inr result \<Rightarrow> result)"



section \<open>The detection orchestrator (App.tsx)\<close>

subsection \<open>String and clock helpers\<close>

text \<open>
  \<^verbatim>\<open>String.prototype.toLowerCase\<close> on the characters that fit in one byte: the letters
  A to Z and the upper-case letters of Latin-1 move up by 32, every other character
  stays.
\<close>

definition toLowerChar :: "char \<Rightarrow> char" where
  "toLowerChar c =
     (let n = (of_char c :: nat)
      in if (65 \<le> n \<and> n \<le> 90) \<or> (192 \<le> n \<and> n \<le> 214) \<or> (216 \<le> n \<and> n \<le> 222)
         then char_of (n + 32) else c)"

definition toLowerCase :: "string \<Rightarrow> string" where
  "toLowerCase str = map toLowerChar str"

text \<open>\<^verbatim>\<open>Date.now().toString()\<close>: the decimal digits of the clock reading.\<close>

fun toString :: "nat \<Rightarrow> string" where
  "toString n =
     (if n < 10 then [char_of (48 + n)]
      else toString (n div 10) @ [char_of (48 + n mod 10)])"

subsection \<open>State\<close>

text \<open>
  The state of the component: the \<^verbatim>\<open>useState\<close> cells and the two \<^verbatim>\<open>useRef\<close> cells
  that the handlers read and write, and \<^verbatim>\<open>window.speechSynthesis\<close> being there.
  A call of a setter is the assignment it results in, and an updater function (as the
  one given to \<^verbatim>\<open>setHistory\<close>) is applied to the current value. The setter calls of
  one synchronous run of a handler are committed together when the run ends, so the
  state the component is in is the state between two events.
  A click handler is the one of the latest render, so what it reads from its closure
  (\<^verbatim>\<open>appState\<close>, \<^verbatim>\<open>signLanguage\<close> in \<^verbatim>\<open>toggleRecording\<close>) is the current state. The
  frame handler called by the scan interval of \<^verbatim>\<open>CameraHandler\<close> is the one of the
  render in which the interval was set: the effect is not run again when only the
  language or the mute flag changes, so the \<^verbatim>\<open>signLanguage\<close> and the \<^verbatim>\<open>isMuted\<close> that
  \<^verbatim>\<open>handleWordDetection\<close> reads may be older than the state. Both are arguments of the
  model of that handler.
  Two more fields record what the handlers do to the outside: \<open>spoken\<close> is the list of
  texts handed to the speech synthesiser, \<open>appStateLog\<close> the arguments of the calls of
  \<^verbatim>\<open>setAppState\<close>, both in order.
\<close>

record App =
  appState :: AppState
  detectionMode :: DetectionMode
  signLanguage :: SignLanguage
  isCameraActive :: bool
  isMuted :: bool
  currentPrediction :: "SignDetectionResult option"
  history :: "HistoryItem list"
  frameCount :: nat
  framesBufferRef :: "string list"
  processingRef :: bool
  speechSynthesis :: bool
  spoken :: "string list"
  appStateLog :: "AppState list"

text \<open>The initial values of the cells, as the \<^verbatim>\<open>useState\<close> and \<^verbatim>\<open>useRef\<close> calls give them.\<close>

definition initialApp :: App where
  "initialApp =
     \<lparr>appState = IDLE, detectionMode = WORD, signLanguage = ASL, isCameraActive = False,
      isMuted = False, currentPrediction = None, history = [], frameCount = 0,
      framesBufferRef = [], processingRef = False, speechSynthesis = True, spoken = [],
      appStateLog = []\<rparr>"

definition setAppState :: "AppState \<Rightarrow> App \<Rightarrow> App" where
  "setAppState a s = s\<lparr>appState := a, appStateLog := appStateLog s @ [a]\<rparr>"

text \<open>
  \<^verbatim>\<open>speak\<close>. The callback closes over \<^verbatim>\<open>isMuted\<close>, so the flag it tests is the one of
  the render that created the handler calling it: it is an argument here.
\<close>

definition speak :: "bool \<Rightarrow> string \<Rightarrow> App \<Rightarrow> App" where
  "speak muted txt s =
     (if muted \<or> \<not> speechSynthesis s then s else s\<lparr>spoken := spoken s @ [txt]\<rparr>)"

subsection \<open>Asynchronous handlers\<close>

text \<open>
  An \<^verbatim>\<open>async\<close> handler runs to its \<^verbatim>\<open>await\<close> and is resumed when the awaited call
  settles; other callbacks may run in between. Each such handler is therefore two
  functions: \<open>_begin\<close> runs up to the \<^verbatim>\<open>await\<close> and reports the call it is waiting for
  (\<open>Await\<close>), or runs to the end without one (\<open>Done\<close>); \<open>_resume\<close> is the rest, from
  the settled call to the end. An awaited call is fulfilled with a result, or the
  \<^verbatim>\<open>try\<close> block of the handler throws (\<open>Rejected\<close>): the awaited promise is
  rejected, or the value it gives is not an object and reading its fields throws. That
  is what the \<^verbatim>\<open>catch\<close> clauses of the handlers are for.
\<close>

datatype call = DetectSingle string SignLanguage | DetectSequence "string list" SignLanguage

datatype task = Done App | Await call App

datatype settled = Fulfilled SignDetectionResult | Rejected

fun stateOf :: "task \<Rightarrow> App" where
  "stateOf (Done s) = s"
| "stateOf (Await c s) = s"

fun callOf :: "task \<Rightarrow> call option" where
  "callOf (Done s) = None"
| "callOf (Await c s) = Some c"

subsection \<open>handleWordDetection\<close>

definition handleWordDetection_begin :: "SignLanguage \<Rightarrow> string \<Rightarrow> App \<Rightarrow> task" where
  "handleWordDetection_begin language base64Image s =
     (if processingRef s then Done s
      else Await (DetectSingle base64Image language)
             (setAppState PROCESSING (s\<lparr>processingRef := True\<rparr>)))"

text \<open>
  The updater passed to \<^verbatim>\<open>setHistory\<close> in the word path: the last item, if there is
  one, is compared with the new translation, both in lower case.
\<close>

definition appendWord :: "bool \<Rightarrow> SignDetectionResult \<Rightarrow> nat \<Rightarrow> nat \<Rightarrow> App \<Rightarrow> App" where
  "appendWord muted result t1 t2 s =
     (let prev = history s
      in if prev = [] \<or> toLowerCase (text_item (last prev)) \<noteq> toLowerCase (translation result)
         then (speak muted (translation result) s)
                \<lparr>history := prev @ [\<lparr>id_item = toString t1, text_item = translation result,
                                       timestamp = t2, mode = WORD\<rparr>]\<rparr>
         else s)"

text \<open>
  The rest of the handler. \<open>t1\<close> and \<open>t2\<close> are the two readings of \<^verbatim>\<open>Date.now()\<close>.
  The \<^verbatim>\<open>finally\<close> clause runs on every path.
\<close>

definition handleWordDetection_resume ::
  "bool \<Rightarrow> settled \<Rightarrow> nat \<Rightarrow> nat \<Rightarrow> App \<Rightarrow> App" where
  "handleWordDetection_resume muted r t1 t2 s =
     (let s1 =
        (case r of
           Rejected \<Rightarrow> s
         | Fulfilled result \<Rightarrow>
             if isSign result \<and> translation result \<noteq> []
             then appendWord muted result t1 t2 (s\<lparr>currentPrediction := Some result\<rparr>)
             else s\<lparr>currentPrediction :=
                      map_option (\<lambda>prev. prev\<lparr>description := Some ''No clear sign detected''\<rparr>)
                        (currentPrediction s)\<rparr>)
      in setAppState SCANNING (s1\<lparr>processingRef := False\<rparr>))"

subsection \<open>toggleRecording\<close>

text \<open>The three statements after the \<^verbatim>\<open>if (frames.length > 0)\<close> block.\<close>

definition toggleRecording_end :: "App \<Rightarrow> App" where
  "toggleRecording_end s = setAppState IDLE (s\<lparr>framesBufferRef := [], frameCount := 0\<rparr>)"

definition toggleRecording_begin :: "App \<Rightarrow> task" where
  "toggleRecording_begin s =
     (if appState s = RECORDING
      then
        (let s1 = setAppState PROCESSING s;
             frames = framesBufferRef s1
         in if length frames > 0
            then Await (DetectSequence frames (signLanguage s1)) s1
            else Done (toggleRecording_end s1))
      else Done (setAppState RECORDING (s\<lparr>framesBufferRef := [], frameCount := 0\<rparr>)))"

definition couldNotUnderstand :: SignDetectionResult where
  "couldNotUnderstand =
     \<lparr>isSign = False, translation = ''Could not understand sentence'', confidence = 0,
      description = None\<rparr>"

definition toggleRecording_resume ::
  "bool \<Rightarrow> settled \<Rightarrow> nat \<Rightarrow> nat \<Rightarrow> App \<Rightarrow> App" where
  "toggleRecording_resume muted r t1 t2 s =
     toggleRecording_end
       (case r of
          Rejected \<Rightarrow> s
        | Fulfilled result \<Rightarrow>
            if isSign result
            then (let s1 = speak muted (translation result) (s\<lparr>currentPrediction := Some result\<rparr>)
                  in s1\<lparr>history := history s1 @
                           [\<lparr>id_item = toString t1, text_item = translation result,
                             timestamp = t2, mode = SENTENCE\<rparr>]\<rparr>)
            else s\<lparr>currentPrediction := Some couldNotUnderstand\<rparr>)"

text \<open>
  The handler run from its start to its end with nothing in between: \<open>infer\<close> is the
  inference client, giving the way the awaited call settles.
\<close>

definition toggleRecording :: "bool \<Rightarrow> (call \<Rightarrow> settled) \<Rightarrow> nat \<Rightarrow> nat \<Rightarrow> App \<Rightarrow> App" where
  "toggleRecording muted infer t1 t2 s =
     (case toggleRecording_begin s of
        Done s' \<Rightarrow> s'
      | Await c s' \<Rightarrow> toggleRecording_resume muted (infer c) t1 t2 s')"

definition handleWordDetection ::
  "SignLanguage \<Rightarrow> bool \<Rightarrow> (call \<Rightarrow> settled) \<Rightarrow> nat \<Rightarrow> nat \<Rightarrow> string \<Rightarrow> App \<Rightarrow> App" where
  "handleWordDetection language muted infer t1 t2 base64Image s =
     (case handleWordDetection_begin language base64Image s of
        Done s' \<Rightarrow> s'
      | Await c s' \<Rightarrow> handleWordDetection_resume muted (infer c) t1 t2 s')"

text \<open>
  The inference client that the handlers await: the two wrappers over a remote service
  and a parser. A wrapper never throws, so the awaited call is always fulfilled.
\<close>

definition inferenceClient :: "generateContent \<Rightarrow> jsonParse \<Rightarrow> call \<Rightarrow> settled" where
  "inferenceClient generate parse c =
     (case c of
        DetectSingle base64Image language \<Rightarrow>
          Fulfilled (detectSignLanguage generate parse base64Image language)
      | DetectSequence base64Images language \<Rightarrow>
          Fulfilled (detectSignSentence generate parse base64Images language))"

subsection \<open>handleFrameCapture and the buttons of the control panel\<close>

definition handleFrameCapture :: "SignLanguage \<Rightarrow> string \<Rightarrow> App \<Rightarrow> task" where
  "handleFrameCapture language base64Image s =
     (if detectionMode s = WORD then handleWordDetection_begin language base64Image s
      else if detectionMode s = SENTENCE \<and> appState s = RECORDING
      then Done (s\<lparr>framesBufferRef := framesBufferRef s @ [base64Image],
                    frameCount := frameCount s + 1\<rparr>)
      else Done s)"

text \<open>
  The two mode buttons of \<^verbatim>\<open>ControlPanel\<close>:
  \<^verbatim>\<open>onClick={() => appState !== AppState.RECORDING && setDetectionMode(m)}\<close>.
\<close>

definition modeButton_onClick :: "DetectionMode \<Rightarrow> App \<Rightarrow> App" where
  "modeButton_onClick m s = (if appState s \<noteq> RECORDING then s\<lparr>detectionMode := m\<rparr> else s)"

text \<open>
  The record button is rendered when the camera is active and the mode is SENTENCE, and
  is disabled while the state is PROCESSING; its handler is \<^verbatim>\<open>toggleRecording\<close>.
\<close>

definition recordButton_onClick :: "App \<Rightarrow> task" where
  "recordButton_onClick s =
     (if isCameraActive s \<and> detectionMode s = SENTENCE \<and> appState s \<noteq> PROCESSING
      then toggleRecording_begin s else Done s)"

subsection \<open>The component with its pending calls\<close>

text \<open>
  The component in the event loop: its state and the inference calls that have been
  issued and have not settled yet. An event is a captured frame (with the language that
  the frame handler closed over), the settling of a
  pending call (with the \<^verbatim>\<open>isMuted\<close> flag its handler closed over, the way it settled
  and the two clock readings), or a click. A call that is not pending cannot settle:
  the step is \<open>None\<close>.
\<close>

record System =
  app :: App
  pending :: "call list"

datatype event =
    FrameCapture SignLanguage string
  | Settle call bool settled nat nat
  | ModeButton DetectionMode
  | RecordButton
  | CameraButton
  | MuteButton
  | LanguageButton SignLanguage
  | ClearHistory
  | Logout

fun launch :: "call list \<Rightarrow> task \<Rightarrow> System" where
  "launch ps (Done s) = \<lparr>app = s, pending = ps\<rparr>"
| "launch ps (Await c s) = \<lparr>app = s, pending = ps @ [c]\<rparr>"

fun resume :: "call \<Rightarrow> bool \<Rightarrow> settled \<Rightarrow> nat \<Rightarrow> nat \<Rightarrow> App \<Rightarrow> App" where
  "resume (DetectSingle img lang) = handleWordDetection_resume"
| "resume (DetectSequence imgs lang) = toggleRecording_resume"

fun step :: "event \<Rightarrow> System \<Rightarrow> System option" where
  "step (FrameCapture lang img) \<sigma> =
     Some (launch (pending \<sigma>) (handleFrameCapture lang img (app \<sigma>)))"
| "step (Settle c muted r t1 t2) \<sigma> =
     (if c \<in> set (pending \<sigma>)
      then Some \<lparr>app = resume c muted r t1 t2 (app \<sigma>), pending = remove1 c (pending \<sigma>)\<rparr>
      else None)"
| "step (ModeButton m) \<sigma> =
     Some (\<sigma>\<lparr>app := (if isCameraActive (app \<sigma>) then modeButton_onClick m (app \<sigma>) else app \<sigma>)\<rparr>)"
| "step RecordButton \<sigma> = Some (launch (pending \<sigma>) (recordButton_onClick (app \<sigma>)))"
| "step CameraButton \<sigma> = Some (\<sigma>\<lparr>app := (app \<sigma>)\<lparr>isCameraActive := \<not> isCameraActive (app \<sigma>)\<rparr>\<rparr>)"
| "step MuteButton \<sigma> = Some (\<sigma>\<lparr>app := (app \<sigma>)\<lparr>isMuted := \<not> isMuted (app \<sigma>)\<rparr>\<rparr>)"
| "step (LanguageButton lang) \<sigma> = Some (\<sigma>\<lparr>app := (app \<sigma>)\<lparr>signLanguage := lang\<rparr>\<rparr>)"
| "step ClearHistory \<sigma> = Some (\<sigma>\<lparr>app := (app \<sigma>)\<lparr>history := []\<rparr>\<rparr>)"
| "step Logout \<sigma> = Some (\<sigma>\<lparr>app := (app \<sigma>)\<lparr>isCameraActive := False\<rparr>\<rparr>)"

fun run :: "event list \<Rightarrow> System \<Rightarrow> System option" where
  "run [] \<sigma> = Some \<sigma>"
| "run (e # es) \<sigma> = (case step e \<sigma> of None \<Rightarrow> None | Some \<sigma>' \<Rightarrow> run es \<sigma>')"

fun isDetectSingle :: "call \<Rightarrow> bool" where
  "isDetectSingle (DetectSingle img lang) = True"
| "isDetectSingle (DetectSequence imgs lang) = False"

text \<open>The number of calls of \<^verbatim>\<open>detectSignLanguage\<close> in flight.\<close>

definition wordCallsInFlight :: "System \<Rightarrow> nat" where
  "wordCallsInFlight \<sigma> = length (filter isDetectSingle (pending \<sigma>))"


text \<open>
  The guard and the pending calls agree: a call of \<^verbatim>\<open>detectSignLanguage\<close> is in
  flight exactly when \<^verbatim>\<open>processingRef.current\<close> is set, and then it is the only one.
\<close>

definition guardAgrees :: "System \<Rightarrow> bool" where
  "guardAgrees \<sigma> = (wordCallsInFlight \<sigma> = (if processingRef (app \<sigma>) then 1 else 0))"

subsection \<open>Where frames come from\<close>

text \<open>
  A frame reaches \<^verbatim>\<open>handleFrameCapture\<close> only from one of two timers: the scan interval
  of \<^verbatim>\<open>CameraHandler\<close>, which runs while \<^verbatim>\<open>isAutoMode && isActive\<close>, that is while the
  camera is active, the mode is WORD and the state is not PROCESSING; and the recording
  interval of the component, which runs while the state is RECORDING and the mode is
  SENTENCE. (The manual capture handed to the control panel is called nowhere.) Both
  are set and cleared by effects that run with the render after a state change; a
  frame is taken to arrive only while the condition of its timer holds in the current
  state. \<open>runTimed\<close> is \<open>run\<close> restricted to such events.
\<close>

definition frameSource :: "App \<Rightarrow> bool" where
  "frameSource s =
     ((isCameraActive s \<and> detectionMode s = WORD \<and> appState s \<noteq> PROCESSING) \<or>
      (appState s = RECORDING \<and> detectionMode s = SENTENCE))"

fun occurs :: "event \<Rightarrow> System \<Rightarrow> bool" where
  "occurs (FrameCapture lang img) \<sigma> = frameSource (app \<sigma>)"
| "occurs (Settle c muted r t1 t2) \<sigma> = True"
| "occurs (ModeButton m) \<sigma> = True"
| "occurs RecordButton \<sigma> = True"
| "occurs CameraButton \<sigma> = True"
| "occurs MuteButton \<sigma> = True"
| "occurs (LanguageButton lang) \<sigma> = True"
| "occurs ClearHistory \<sigma> = True"
| "occurs Logout \<sigma> = True"

fun runTimed :: "event list \<Rightarrow> System \<Rightarrow> System option" where
  "runTimed [] \<sigma> = Some \<sigma>"
| "runTimed (e # es) \<sigma> =
     (if occurs e \<sigma>
      then (case step e \<sigma> of None \<Rightarrow> None | Some \<sigma>' \<Rightarrow> runTimed es \<sigma>')
      else None)"


subsection \<open>Sample results and states\<close>

definition hello :: SignDetectionResult where
  "hello = \<lparr>isSign = True, translation = ''HELLO'', confidence = 1, description = None\<rparr>"

definition helloLower :: SignDetectionResult where
  "helloLower = \<lparr>isSign = True, translation = ''hello'', confidence = 1, description = None\<rparr>"

definition world :: SignDetectionResult where
  "world = \<lparr>isSign = True, translation = ''WORLD'', confidence = 1, description = None\<rparr>"

definition blank :: SignDetectionResult where
  "blank = \<lparr>isSign = True, translation = '' '', confidence = 1, description = None\<rparr>"

text \<open>Sentence mode with the camera on, recording, with no frame and with two frames.\<close>

definition recordingEmpty :: App where
  "recordingEmpty =
     initialApp\<lparr>appState := RECORDING, detectionMode := SENTENCE, isCameraActive := True,
                appStateLog := [RECORDING]\<rparr>"

definition recordingTwo :: App where
  "recordingTwo = recordingEmpty\<lparr>frameCount := 2, framesBufferRef := [''f1'', ''f2'']\<rparr>"

declare toString.simps [simp del]


section \<open>Downsampling of the frame list\<close>

lemma ceil15: "nat \<lceil>real n / 15\<rceil> = (n + 14) div 15"
proof -
  have "\<lceil>real n / 15\<rceil> = \<lceil>real_of_int (int n) / real_of_int 15\<rceil>" by simp
  also have "\<dots> = - ((- int n) div 15)" by (rule ceiling_divide_eq_div)
  also have "\<dots> = int ((n + 14) div 15)" by linarith
  finally show ?thesis by simp
qed

lemma filterIndex_nths: "filterIndex p xs = nths xs {i. p i}"
  by (simp add: filterIndex_def nths_def case_prod_unfold)

lemma card_multiples:
  fixes k n :: nat
  assumes "0 < k" and "n \<le> 15 * k"
  shows "card {i. i < n \<and> i mod k = 0} \<le> 15"
proof -
  have "{i. i < n \<and> i mod k = 0} \<subseteq> (\<lambda>j. j * k) ` {..<15}"
  proof
    fix i assume "i \<in> {i. i < n \<and> i mod k = 0}"
    then have i: "i < n" "i mod k = 0" by auto
    then have "i = (i div k) * k" using div_mult_mod_eq[of i k] by simp
    moreover have "i div k < 15" using i assms
      by (simp add: less_mult_imp_div_less mult.commute)
    ultimately show "i \<in> (\<lambda>j. j * k) ` {..<15}" by blast
  qed
  then have "card {i. i < n \<and> i mod k = 0} \<le> card ((\<lambda>j. j * k) ` {..<(15::nat)})"
    by (intro card_mono) auto
  also have "\<dots> \<le> card {..<(15::nat)}" by (rule card_image_le) simp
  finally show ?thesis by simp
qed

lemma ceil_step:
  fixes n k :: nat
  assumes "0 < k"
  shows "(Suc n + (k - 1)) div k = (if n mod k = 0 then Suc ((n + (k - 1)) div k) else (n + (k - 1)) div k)"
  by (metis One_nat_def Suc_pred add_Suc add_Suc_shift assms div_Suc mod_add_self2)

lemma ceil_exact:
  fixes n k :: nat
  assumes "0 < k" "n mod k = 0"
  shows "(n + (k - 1)) div k = n div k"
  by (metis (no_types, lifting) add.commute add_eq_if assms(2) diff_zero
    div_nat_eqI lessI linorder_not_less minus_mod_eq_div_mult mult.commute
    mult_Suc_right not_add_less1 split_div')

lemma below_ceil:
  fixes n k j :: nat
  assumes "0 < k" "j < (n + (k - 1)) div k"
  shows "j * k < n"
proof -
  from assms(2) have "Suc j \<le> (n + (k - 1)) div k" by simp
  then have "Suc j * k \<le> n + (k - 1)"
    using assms(1) by (simp add: less_eq_div_iff_mult_less_eq)
  then show ?thesis using assms(1) by simp
qed

lemma nths_multiples:
  assumes "0 < k"
  shows "nths xs {i. i mod k = 0} = map (\<lambda>j. xs ! (j * k)) [0..<(length xs + (k - 1)) div k]"
proof (induction xs rule: rev_induct)
  case Nil
  then show ?case using assms by simp
next
  case (snoc x xs)
  let ?n = "length xs"
  let ?m = "(?n + (k - 1)) div k"
  have old: "map (\<lambda>j. (xs @ [x]) ! (j * k)) [0..<?m] = map (\<lambda>j. xs ! (j * k)) [0..<?m]"
    using below_ceil[OF assms, of _ ?n] by (simp add: nth_append)
  have new: "nths [x] {j. (j + ?n) mod k = 0} = (if ?n mod k = 0 then [x] else [])"
    by (simp add: nths_singleton)
  show ?case
  proof (cases "?n mod k = 0")
    case True
    then have m: "?m = ?n div k" "?m * k = ?n"
      using ceil_exact[OF assms True] by auto
    have "(Suc ?n + (k - 1)) div k = Suc ?m" using ceil_step[OF assms, of ?n] True by simp
    then show ?thesis
      using snoc old new True m by (simp add: nths_append)
  next
    case False
    have "(Suc ?n + (k - 1)) div k = ?m" using ceil_step[OF assms, of ?n] False by simp
    then show ?thesis
      using snoc old new False by (simp add: nths_append)
  qed
qed

lemma nths_multiples_hd:
  assumes "xs \<noteq> []"
  shows "nths xs {i. i mod k = 0} \<noteq> [] \<and> hd (nths xs {i. i mod k = 0}) = xs ! 0"
proof -
  from assms obtain y ys where "xs = y # ys" by (cases xs) auto
  then show ?thesis by (simp add: nths_Cons)
qed

lemma framesToProcess_nths:
  "15 < length xs \<Longrightarrow>
     framesToProcess xs = nths xs {i. i mod nat \<lceil>real (length xs) / 15\<rceil> = 0}"
  by (simp add: framesToProcess_def filterIndex_nths)

lemma framesToProcess_length: "length (framesToProcess xs) \<le> 15"
proof (cases "15 < length xs")
  case True
  let ?k = "nat \<lceil>real (length xs) / 15\<rceil>"
  have "0 < ?k" and "length xs \<le> 15 * ?k" using True by (simp_all add: ceil15)
  then have "card {i. i < length xs \<and> i mod ?k = 0} \<le> 15" by (rule card_multiples)
  then show ?thesis by (simp add: framesToProcess_nths[OF True] length_nths)
next
  case False
  then show ?thesis by (simp add: framesToProcess_def)
qed

text \<open>
  C2. A list of at most 15 frames is sent as it is. A longer list, of \<open>n\<close> frames, is
  cut down to the frames whose index is a multiple of the stride \<open>k = \<lceil>n / 15\<rceil>\<close>,
  that is the frames at the indices \<open>0, k, 2k, \<dots>\<close> below \<open>n\<close>: at most 15 of them,
  a subsequence of the input in the input's order, starting with the frame at index 0.
  The images of the request are exactly these frames, each passed through
  \<^verbatim>\<open>cleanBase64\<close>, in the same order: all frames of a list of at most 15, and never
  more than 15. The result of \<^verbatim>\<open>detectSignSentence\<close> depends on the remote service
  through this request only.
\<close>

theorem framesToProcess_downsampling:
  "(length xs \<le> 15 \<longrightarrow> framesToProcess xs = xs) \<and>
   (15 < length xs \<longrightarrow>
      framesToProcess xs = nths xs {i. i mod nat \<lceil>real (length xs) / 15\<rceil> = 0} \<and>
      framesToProcess xs =
        map (\<lambda>j. xs ! (j * nat \<lceil>real (length xs) / 15\<rceil>))
          [0..<(length xs + (nat \<lceil>real (length xs) / 15\<rceil> - 1))
                 div nat \<lceil>real (length xs) / 15\<rceil>] \<and>
      length (framesToProcess xs) \<le> 15 \<and>
      subseq (framesToProcess xs) xs \<and>
      framesToProcess xs \<noteq> [] \<and> hd (framesToProcess xs) = xs ! 0) \<and>
   imageParts base64Images = map cleanBase64 (framesToProcess base64Images) \<and>
   (length base64Images \<le> 15 \<longrightarrow> imageParts base64Images = map cleanBase64 base64Images) \<and>
   length (imageParts base64Images) \<le> 15 \<and>
   detectSignSentence_try generate parse base64Images language =
     readResponse parse
       (generate (map cleanBase64 (framesToProcess base64Images), langFull language)) \<and>
   detectSignSentence generate parse base64Images language =
     (case readResponse parse
             (generate (map cleanBase64 (framesToProcess base64Images), langFull language)) of
        Inl error \<Rightarrow> sentenceErrorResult
      | Inr result \<Rightarrow> result)"
proof (intro conjI impI)
  assume "length xs \<le> 15"
  then show "framesToProcess xs = xs" by (simp add: framesToProcess_def)
next
  show "imageParts base64Images = map cleanBase64 (framesToProcess base64Images)"
    by (simp add: imageParts_def)
next
  assume "length base64Images \<le> 15"
  then show "imageParts base64Images = map cleanBase64 base64Images"
    by (simp add: imageParts_def framesToProcess_def)
next
  show "detectSignSentence_try generate parse base64Images language =
     readResponse parse
       (generate (map cleanBase64 (framesToProcess base64Images), langFull language))"
    by (simp add: detectSignSentence_try_def imageParts_def)
next
  show "detectSignSentence generate parse base64Images language =
     (case readResponse parse
             (generate (map cleanBase64 (framesToProcess base64Images), langFull language)) of
        Inl error \<Rightarrow> sentenceErrorResult
      | Inr result \<Rightarrow> result)"
    by (simp add: detectSignSentence_def detectSignSentence_try_def imageParts_def)
next
  assume long: "15 < length xs"
  let ?k = "nat \<lceil>real (length xs) / 15\<rceil>"
  have eq: "framesToProcess xs = nths xs {i. i mod ?k = 0}"
    using long by (rule framesToProcess_nths)
  have k: "0 < ?k" using long by (simp add: ceil15)
  have ne: "xs \<noteq> []" using long by auto
  show "framesToProcess xs = nths xs {i. i mod ?k = 0}" by (rule eq)
  show "framesToProcess xs = map (\<lambda>j. xs ! (j * ?k)) [0..<(length xs + (?k - 1)) div ?k]"
    unfolding eq by (rule nths_multiples[OF k])
  show "length (framesToProcess xs) \<le> 15" by (rule framesToProcess_length)
  show "subseq (framesToProcess xs) xs"
    unfolding eq subseq_conv_nths by blast
  show "framesToProcess xs \<noteq> []"
    using nths_multiples_hd[OF ne, of ?k] by (simp add: eq)
  show "hd (framesToProcess xs) = xs ! 0"
    using nths_multiples_hd[OF ne, of ?k] by (simp add: eq)
next
  show "length (imageParts base64Images) \<le> 15"
    by (simp add: imageParts_def framesToProcess_length)
qed

theorem framesToProcess_downsampling_witness:
  "length [0..<37::nat] = 37 \<and>
   framesToProcess [0..<37::nat] = [0, 3, 6, 9, 12, 15, 18, 21, 24, 27, 30, 33, 36] \<and>
   length (framesToProcess [0..<37::nat]) \<le> 15 \<and>
   subseq (framesToProcess [0..<37::nat]) [0..<37] \<and>
   hd (framesToProcess [0..<37::nat]) = 0 \<and>
   framesToProcess ''abc'' = ''abc'' \<and>
   imageParts [''data:image/jpeg;base64,AAAA'', ''BBBB''] = [''AAAA'', ''BBBB''] \<and>
   imageParts (map toString [0..<37]) =
     [''0'', ''3'', ''6'', ''9'', ''12'', ''15'', ''18'', ''21'', ''24'', ''27'', ''30'', ''33'', ''36'']"
proof -
  have run: "framesToProcess [0..<37::nat] = [0, 3, 6, 9, 12, 15, 18, 21, 24, 27, 30, 33, 36]"
    by code_simp
  have long: "15 < length [0..<37::nat]" by simp
  have short: "length ''abc'' \<le> 15" by simp
  from framesToProcess_downsampling[of "[0..<37::nat]"] long
  have "length (framesToProcess [0..<37::nat]) \<le> 15"
    and "subseq (framesToProcess [0..<37::nat]) [0..<37]"
    and "hd (framesToProcess [0..<37::nat]) = [0..<37] ! 0"
    by blast+
  moreover from framesToProcess_downsampling[of "''abc''"] short
  have "framesToProcess ''abc'' = ''abc''" by blast
  moreover have two: "length [''data:image/jpeg;base64,AAAA'', ''BBBB''] \<le> 15" by simp
  from framesToProcess_downsampling[where base64Images = "[''data:image/jpeg;base64,AAAA'', ''BBBB'']"]
    two
  have "imageParts [''data:image/jpeg;base64,AAAA'', ''BBBB'']
          = map cleanBase64 [''data:image/jpeg;base64,AAAA'', ''BBBB'']"
    by blast
  moreover have "map cleanBase64 [''data:image/jpeg;base64,AAAA'', ''BBBB''] = [''AAAA'', ''BBBB'']"
    by code_simp
  moreover have "imageParts (map toString [0..<37]) =
     [''0'', ''3'', ''6'', ''9'', ''12'', ''15'', ''18'', ''21'', ''24'', ''27'', ''30'', ''33'', ''36'']"
    by code_simp
  ultimately show ?thesis using run by simp
qed


section \<open>The wrappers never throw\<close>

lemma readResponse_failures:
  "readResponse parse RequestFailed = Inl RequestError"
  "readResponse parse (Response None) = Inl NoResponseText"
  "readResponse parse (Response (Some [])) = Inl NoResponseText"
  "text \<noteq> [] \<Longrightarrow> parse (cleanJson text) = None \<Longrightarrow>
     readResponse parse (Response (Some text)) = Inl JsonSyntaxError"
  by (simp_all add: readResponse_def)

lemma readResponse_Inl_cases:
  "readResponse parse r = Inl e \<longleftrightarrow>
     (r = RequestFailed \<and> e = RequestError) \<or>
     ((r = Response None \<or> r = Response (Some [])) \<and> e = NoResponseText) \<or>
     (\<exists>text. r = Response (Some text) \<and> text \<noteq> [] \<and> parse (cleanJson text) = None \<and>
        e = JsonSyntaxError)"
  by (auto simp: readResponse_def split: response.splits option.splits)

text \<open>
  C10. Whatever step of a wrapper fails (the request, a response without text, a text
  that does not parse), the wrapper returns its fixed result, with \<open>isSign\<close> false,
  the empty translation and confidence 0; each of the three failures is a failure of
  the \<^verbatim>\<open>try\<close> block, and the result type of the wrappers has no exception in it.
\<close>

theorem wrappers_return_sentinel:
  "(detectSignLanguage_try generate parse img lang = Inl e \<longrightarrow>
      detectSignLanguage generate parse img lang = wordErrorResult) \<and>
   (detectSignSentence_try generate parse imgs lang = Inl e \<longrightarrow>
      detectSignSentence generate parse imgs lang = sentenceErrorResult) \<and>
   (readResponse parse r = Inl e \<longleftrightarrow>
      (r = RequestFailed \<and> e = RequestError) \<or>
      ((r = Response None \<or> r = Response (Some [])) \<and> e = NoResponseText) \<or>
      (\<exists>text. r = Response (Some text) \<and> text \<noteq> [] \<and> parse (cleanJson text) = None \<and>
         e = JsonSyntaxError)) \<and>
   \<not> isSign wordErrorResult \<and> translation wordErrorResult = [] \<and>
   confidence wordErrorResult = 0 \<and>
   \<not> isSign sentenceErrorResult \<and> translation sentenceErrorResult = [] \<and>
   confidence sentenceErrorResult = 0"
  by (simp add: detectSignLanguage_def detectSignSentence_def wordErrorResult_def
      sentenceErrorResult_def readResponse_Inl_cases)

theorem wrappers_return_sentinel_witness:
  "detectSignLanguage_try (\<lambda>q. RequestFailed) (\<lambda>t. None) ''data:image/jpeg;base64,AAAA'' ASL
     = Inl RequestError \<and>
   detectSignLanguage (\<lambda>q. RequestFailed) (\<lambda>t. None) ''data:image/jpeg;base64,AAAA'' ASL
     = wordErrorResult \<and>
   detectSignSentence_try (\<lambda>q. Response (Some ''not json'')) (\<lambda>t. None) [''a'', ''b''] ISL
     = Inl JsonSyntaxError \<and>
   detectSignSentence (\<lambda>q. Response (Some ''not json'')) (\<lambda>t. None) [''a'', ''b''] ISL
     = sentenceErrorResult"
proof -
  have w: "detectSignLanguage_try (\<lambda>q. RequestFailed) (\<lambda>t. None)
             ''data:image/jpeg;base64,AAAA'' ASL = Inl RequestError"
    by (simp add: detectSignLanguage_try_def readResponse_def)
  have s: "detectSignSentence_try (\<lambda>q. Response (Some ''not json'')) (\<lambda>t. None) [''a'', ''b''] ISL
             = Inl JsonSyntaxError"
    by (simp add: detectSignSentence_try_def readResponse_def)
  from wrappers_return_sentinel[where generate = "\<lambda>q. RequestFailed" and parse = "\<lambda>t. None"
      and img = "''data:image/jpeg;base64,AAAA''" and lang = ASL and e = RequestError] w
  have "detectSignLanguage (\<lambda>q. RequestFailed) (\<lambda>t. None) ''data:image/jpeg;base64,AAAA'' ASL
          = wordErrorResult" by blast
  moreover from wrappers_return_sentinel[where generate = "\<lambda>q. Response (Some ''not json'')"
      and parse = "\<lambda>t. None" and imgs = "[''a'', ''b'']" and lang = ISL and e = JsonSyntaxError] s
  have "detectSignSentence (\<lambda>q. Response (Some ''not json'')) (\<lambda>t. None) [''a'', ''b''] ISL
          = sentenceErrorResult" by blast
  ultimately show ?thesis using w s by simp
qed



section \<open>Field lemmas for the handlers\<close>

lemma setAppState_fields [simp]:
  "appState (setAppState a s) = a"
  "appStateLog (setAppState a s) = appStateLog s @ [a]"
  "history (setAppState a s) = history s"
  "spoken (setAppState a s) = spoken s"
  "framesBufferRef (setAppState a s) = framesBufferRef s"
  "frameCount (setAppState a s) = frameCount s"
  "processingRef (setAppState a s) = processingRef s"
  "currentPrediction (setAppState a s) = currentPrediction s"
  "detectionMode (setAppState a s) = detectionMode s"
  "signLanguage (setAppState a s) = signLanguage s"
  by (simp_all add: setAppState_def)

lemma speak_fields [simp]:
  "appState (speak muted txt s) = appState s"
  "appStateLog (speak muted txt s) = appStateLog s"
  "history (speak muted txt s) = history s"
  "spoken (speak muted txt s) =
     (if muted \<or> \<not> speechSynthesis s then spoken s else spoken s @ [txt])"
  "framesBufferRef (speak muted txt s) = framesBufferRef s"
  "frameCount (speak muted txt s) = frameCount s"
  "processingRef (speak muted txt s) = processingRef s"
  "currentPrediction (speak muted txt s) = currentPrediction s"
  by (simp_all add: speak_def)

lemma toggleRecording_end_fields [simp]:
  "appState (toggleRecording_end s) = IDLE"
  "appStateLog (toggleRecording_end s) = appStateLog s @ [IDLE]"
  "history (toggleRecording_end s) = history s"
  "spoken (toggleRecording_end s) = spoken s"
  "framesBufferRef (toggleRecording_end s) = []"
  "frameCount (toggleRecording_end s) = 0"
  "processingRef (toggleRecording_end s) = processingRef s"
  "currentPrediction (toggleRecording_end s) = currentPrediction s"
  by (simp_all add: toggleRecording_end_def)

lemma appendWord_history:
  "history (appendWord muted res t1 t2 s) =
     (if history s = [] \<or>
         toLowerCase (text_item (last (history s))) \<noteq> toLowerCase (translation res)
      then history s @
             [\<lparr>id_item = toString t1, text_item = translation res, timestamp = t2, mode = WORD\<rparr>]
      else history s)"
  by (simp add: appendWord_def Let_def)

lemma appendWord_spoken:
  "spoken (appendWord muted res t1 t2 s) =
     (if history s = [] \<or>
         toLowerCase (text_item (last (history s))) \<noteq> toLowerCase (translation res)
      then (if muted \<or> \<not> speechSynthesis s then spoken s else spoken s @ [translation res])
      else spoken s)"
  by (simp add: appendWord_def Let_def)

lemma word_resume_history:
  "history (handleWordDetection_resume muted r t1 t2 s) =
     (case r of
        Rejected \<Rightarrow> history s
      | Fulfilled res \<Rightarrow>
          if isSign res \<and> translation res \<noteq> [] \<and>
             (history s = [] \<or>
              toLowerCase (text_item (last (history s))) \<noteq> toLowerCase (translation res))
          then history s @
                 [\<lparr>id_item = toString t1, text_item = translation res, timestamp = t2,
                   mode = WORD\<rparr>]
          else history s)"
  by (simp add: handleWordDetection_resume_def Let_def appendWord_history split: settled.splits)

lemma word_resume_spoken:
  "spoken (handleWordDetection_resume muted r t1 t2 s) =
     (case r of
        Rejected \<Rightarrow> spoken s
      | Fulfilled res \<Rightarrow>
          if isSign res \<and> translation res \<noteq> [] \<and>
             (history s = [] \<or>
              toLowerCase (text_item (last (history s))) \<noteq> toLowerCase (translation res))
          then (if muted \<or> \<not> speechSynthesis s then spoken s else spoken s @ [translation res])
          else spoken s)"
  by (simp add: handleWordDetection_resume_def Let_def appendWord_spoken split: settled.splits)

lemma sentence_resume_history:
  "history (toggleRecording_resume muted r t1 t2 s) =
     (case r of
        Rejected \<Rightarrow> history s
      | Fulfilled res \<Rightarrow>
          if isSign res
          then history s @
                 [\<lparr>id_item = toString t1, text_item = translation res, timestamp = t2,
                   mode = SENTENCE\<rparr>]
          else history s)"
  by (simp add: toggleRecording_resume_def Let_def split: settled.splits)

lemma sentence_resume_spoken:
  "spoken (toggleRecording_resume muted r t1 t2 s) =
     (case r of
        Rejected \<Rightarrow> spoken s
      | Fulfilled res \<Rightarrow>
          if isSign res
          then (if muted \<or> \<not> speechSynthesis s then spoken s else spoken s @ [translation res])
          else spoken s)"
  by (simp add: toggleRecording_resume_def Let_def split: settled.splits)

lemma begin_history [simp]:
  "history (stateOf (handleWordDetection_begin lang img s)) = history s"
  "history (stateOf (toggleRecording_begin s)) = history s"
  "history (stateOf (handleFrameCapture lang img s)) = history s"
  "history (stateOf (recordButton_onClick s)) = history s"
  "history (modeButton_onClick m s) = history s"
  by (simp_all add: handleWordDetection_begin_def toggleRecording_begin_def Let_def
      handleFrameCapture_def recordButton_onClick_def modeButton_onClick_def)

lemma app_launch [simp]: "app (launch ps t) = stateOf t"
  by (cases t) simp_all

lemma processingRef_word_resume [simp]:
  "processingRef (handleWordDetection_resume muted r t1 t2 s) = False"
  by (simp add: handleWordDetection_resume_def Let_def)

lemma processingRef_toggle_resume [simp]:
  "processingRef (toggleRecording_resume muted r t1 t2 s) = processingRef s"
  by (simp add: toggleRecording_resume_def Let_def split: settled.splits)


lemma word_resume_fields [simp]:
  "appState (handleWordDetection_resume muted r t1 t2 s) = SCANNING"
  "framesBufferRef (handleWordDetection_resume muted r t1 t2 s) = framesBufferRef s"
  "detectionMode (handleWordDetection_resume muted r t1 t2 s) = detectionMode s"
  by (simp_all add: handleWordDetection_resume_def appendWord_def speak_def setAppState_def
      Let_def split: settled.splits)

lemma sentence_resume_fields [simp]:
  "appState (toggleRecording_resume muted r t1 t2 s) = IDLE"
  "framesBufferRef (toggleRecording_resume muted r t1 t2 s) = []"
  "detectionMode (toggleRecording_resume muted r t1 t2 s) = detectionMode s"
  by (simp_all add: toggleRecording_resume_def toggleRecording_end_def speak_def
      setAppState_def Let_def split: settled.splits)


section \<open>The in-flight guard\<close>

lemma guardAgrees_launch_word:
  "guardAgrees \<sigma> \<Longrightarrow>
     guardAgrees (launch (pending \<sigma>) (handleWordDetection_begin lang img (app \<sigma>)))"
  by (auto simp: guardAgrees_def wordCallsInFlight_def handleWordDetection_begin_def)

lemma guardAgrees_launch_toggle:
  "guardAgrees \<sigma> \<Longrightarrow> guardAgrees (launch (pending \<sigma>) (toggleRecording_begin (app \<sigma>)))"
  by (auto simp: guardAgrees_def wordCallsInFlight_def toggleRecording_begin_def Let_def)

lemma guardAgrees_frame:
  "guardAgrees \<sigma> \<Longrightarrow>
     guardAgrees (launch (pending \<sigma>) (handleFrameCapture lang img (app \<sigma>)))"
  using guardAgrees_launch_word[of \<sigma> lang img]
  by (auto simp: handleFrameCapture_def) (auto simp: guardAgrees_def wordCallsInFlight_def)

lemma guardAgrees_record:
  "guardAgrees \<sigma> \<Longrightarrow> guardAgrees (launch (pending \<sigma>) (recordButton_onClick (app \<sigma>)))"
  using guardAgrees_launch_toggle[of \<sigma>]
  by (auto simp: recordButton_onClick_def) (auto simp: guardAgrees_def wordCallsInFlight_def)

lemma guardAgrees_settle:
  assumes "guardAgrees \<sigma>" and "c \<in> set (pending \<sigma>)"
  shows "guardAgrees \<lparr>app = resume c muted r t1 t2 (app \<sigma>), pending = remove1 c (pending \<sigma>)\<rparr>"
proof (cases c)
  case (DetectSingle img lang)
  then have mem: "c \<in> set (filter isDetectSingle (pending \<sigma>))" using assms(2) by simp
  then have "length (remove1 c (filter isDetectSingle (pending \<sigma>)))
               = length (filter isDetectSingle (pending \<sigma>)) - 1"
    by (simp only: length_remove1 if_True)
  moreover have "0 < length (filter isDetectSingle (pending \<sigma>))"
    using mem by (rule length_pos_if_in_set)
  ultimately show ?thesis
    using assms(1) DetectSingle
    by (auto simp: guardAgrees_def wordCallsInFlight_def filter_remove1 split: if_splits)
next
  case (DetectSequence imgs lang)
  then have "filter isDetectSingle (remove1 c (pending \<sigma>)) = filter isDetectSingle (pending \<sigma>)"
    by (induction "pending \<sigma>" arbitrary: \<sigma>) (auto simp: filter_remove1 remove1_idem)
  then show ?thesis
    using assms(1) DetectSequence by (simp add: guardAgrees_def wordCallsInFlight_def)
qed

lemma guardAgrees_step:
  "guardAgrees \<sigma> \<Longrightarrow> step e \<sigma> = Some \<sigma>' \<Longrightarrow> guardAgrees \<sigma>'"
proof (cases e)
  case (FrameCapture lang img)
  assume "guardAgrees \<sigma>" "step e \<sigma> = Some \<sigma>'"
  then show ?thesis using FrameCapture guardAgrees_frame[of \<sigma> lang img] by auto
next
  case (Settle c muted r t1 t2)
  assume "guardAgrees \<sigma>" "step e \<sigma> = Some \<sigma>'"
  then show ?thesis using Settle guardAgrees_settle[of \<sigma> c muted r t1 t2]
    by (auto split: if_splits)
next
  case RecordButton
  assume "guardAgrees \<sigma>" "step e \<sigma> = Some \<sigma>'"
  then show ?thesis using RecordButton guardAgrees_record[of \<sigma>] by auto
qed (auto simp: guardAgrees_def wordCallsInFlight_def modeButton_onClick_def split: if_splits)

lemma guardAgrees_run:
  "guardAgrees \<sigma> \<Longrightarrow> run es \<sigma> = Some \<sigma>' \<Longrightarrow> guardAgrees \<sigma>'"
proof (induction es arbitrary: \<sigma>)
  case Nil
  then show ?case by simp
next
  case (Cons e es)
  then show ?case by (auto split: option.splits dest: guardAgrees_step)
qed

text \<open>
  C1. A frame that reaches \<^verbatim>\<open>handleWordDetection\<close> while the guard is set is dropped:
  the handler ends at once, issues no call and leaves the state as it is, and in word
  mode the whole step leaves component and pending calls unchanged. Starting with the
  guard clear and nothing pending, after every sequence of events at most one call of
  \<^verbatim>\<open>detectSignLanguage\<close> is in flight.
\<close>

theorem word_single_flight:
  "(processingRef s \<longrightarrow> handleWordDetection_begin lang img s = Done s) \<and>
   (processingRef (app \<sigma>0) \<and> detectionMode (app \<sigma>0) = WORD \<longrightarrow>
      step (FrameCapture lang img) \<sigma>0 = Some \<sigma>0) \<and>
   (\<not> processingRef s0 \<and> run es \<lparr>app = s0, pending = []\<rparr> = Some \<sigma> \<longrightarrow>
      wordCallsInFlight \<sigma> \<le> 1)"
proof (intro conjI impI)
  assume "processingRef s"
  then show "handleWordDetection_begin lang img s = Done s"
    by (simp add: handleWordDetection_begin_def)
next
  assume "processingRef (app \<sigma>0) \<and> detectionMode (app \<sigma>0) = WORD"
  then show "step (FrameCapture lang img) \<sigma>0 = Some \<sigma>0"
    by (simp add: handleFrameCapture_def handleWordDetection_begin_def)
next
  assume a: "\<not> processingRef s0 \<and> run es \<lparr>app = s0, pending = []\<rparr> = Some \<sigma>"
  then have "guardAgrees \<lparr>app = s0, pending = []\<rparr>"
    by (simp add: guardAgrees_def wordCallsInFlight_def)
  with a have "guardAgrees \<sigma>" by (blast intro: guardAgrees_run)
  then show "wordCallsInFlight \<sigma> \<le> 1" by (simp add: guardAgrees_def split: if_splits)
qed

theorem word_single_flight_witness:
  "handleWordDetection_begin ASL ''b'' (initialApp\<lparr>processingRef := True\<rparr>)
     = Done (initialApp\<lparr>processingRef := True\<rparr>) \<and>
   run [FrameCapture ASL ''a'', FrameCapture ASL ''b'', FrameCapture ASL ''c'']
       \<lparr>app = initialApp, pending = []\<rparr>
     = Some \<lparr>app = initialApp\<lparr>appState := PROCESSING, processingRef := True,
                               appStateLog := [PROCESSING]\<rparr>,
             pending = [DetectSingle ''a'' ASL]\<rparr> \<and>
   step (FrameCapture ASL ''d'')
       \<lparr>app = initialApp\<lparr>appState := PROCESSING, processingRef := True,
                          appStateLog := [PROCESSING]\<rparr>,
        pending = [DetectSingle ''a'' ASL]\<rparr>
     = Some \<lparr>app = initialApp\<lparr>appState := PROCESSING, processingRef := True,
                               appStateLog := [PROCESSING]\<rparr>,
             pending = [DetectSingle ''a'' ASL]\<rparr> \<and>
   wordCallsInFlight
       \<lparr>app = initialApp\<lparr>appState := PROCESSING, processingRef := True,
                          appStateLog := [PROCESSING]\<rparr>,
        pending = [DetectSingle ''a'' ASL]\<rparr> \<le> 1"
proof -
  let ?busy = "\<lparr>app = initialApp\<lparr>appState := PROCESSING, processingRef := True,
                                     appStateLog := [PROCESSING]\<rparr>,
                  pending = [DetectSingle ''a'' ASL]\<rparr>"
  have g: "processingRef (initialApp\<lparr>processingRef := True\<rparr>)" by simp
  have b: "processingRef (app ?busy) \<and> detectionMode (app ?busy) = WORD"
    by (simp add: initialApp_def)
  have r: "\<not> processingRef initialApp \<and>
           run [FrameCapture ASL ''a'', FrameCapture ASL ''b'', FrameCapture ASL ''c'']
             \<lparr>app = initialApp, pending = []\<rparr> = Some ?busy"
    by code_simp
  from word_single_flight[where s = "initialApp\<lparr>processingRef := True\<rparr>" and lang = ASL
      and img = "''b''" and \<sigma>0 = ?busy and ?s0.0 = initialApp
      and es = "[FrameCapture ASL ''a'', FrameCapture ASL ''b'', FrameCapture ASL ''c'']"
      and \<sigma> = ?busy]
  have "handleWordDetection_begin ASL ''b'' (initialApp\<lparr>processingRef := True\<rparr>)
          = Done (initialApp\<lparr>processingRef := True\<rparr>)"
    and "step (FrameCapture ASL ''b'') ?busy = Some ?busy"
    and "wordCallsInFlight ?busy \<le> 1"
    using g b r by blast+
  moreover have "step (FrameCapture ASL ''d'') ?busy = Some ?busy"
    using word_single_flight[where lang = ASL and img = "''d''" and \<sigma>0 = ?busy] b by blast
  ultimately show ?thesis using r by simp
qed



section \<open>What reaches the history\<close>

text \<open>
  C4. For a word result that is positive (\<open>isSign\<close> and a non-empty translation): when
  the history is not empty and the text of its last item equals the translation after
  both are put in lower case, neither the history nor the spoken texts change;
  otherwise one item with the translation is appended and the translation is handed to
  \<^verbatim>\<open>speak\<close> (which utters it unless muted). A second positive result with the same
  text up to case, arriving when the history is as the first left it, appends nothing
  and speaks nothing.
\<close>

theorem word_dedup:
  assumes "isSign res" and "translation res \<noteq> []"
  shows
   "(history s \<noteq> [] \<and>
     toLowerCase (text_item (last (history s))) = toLowerCase (translation res) \<longrightarrow>
       history (handleWordDetection_resume muted (Fulfilled res) t1 t2 s) = history s \<and>
       spoken (handleWordDetection_resume muted (Fulfilled res) t1 t2 s) = spoken s) \<and>
    (history s = [] \<or>
     toLowerCase (text_item (last (history s))) \<noteq> toLowerCase (translation res) \<longrightarrow>
       history (handleWordDetection_resume muted (Fulfilled res) t1 t2 s) =
         history s @
           [\<lparr>id_item = toString t1, text_item = translation res, timestamp = t2, mode = WORD\<rparr>] \<and>
       spoken (handleWordDetection_resume muted (Fulfilled res) t1 t2 s) =
         (if muted \<or> \<not> speechSynthesis s then spoken s else spoken s @ [translation res])) \<and>
    (isSign res' \<and> translation res' \<noteq> [] \<and>
     toLowerCase (translation res') = toLowerCase (translation res) \<and>
     history s' = history (handleWordDetection_resume muted (Fulfilled res) t1 t2 s) \<longrightarrow>
       history (handleWordDetection_resume muted' (Fulfilled res') t3 t4 s') = history s' \<and>
       spoken (handleWordDetection_resume muted' (Fulfilled res') t3 t4 s') = spoken s')"
  using assms by (auto simp: word_resume_history word_resume_spoken)

theorem word_dedup_witness:
  "isSign hello \<and> translation hello \<noteq> [] \<and> history initialApp = [] \<and>
   history (handleWordDetection_resume False (Fulfilled hello) 1 2 initialApp) =
     [\<lparr>id_item = ''1'', text_item = ''HELLO'', timestamp = 2, mode = WORD\<rparr>] \<and>
   spoken (handleWordDetection_resume False (Fulfilled hello) 1 2 initialApp) = [''HELLO''] \<and>
   toLowerCase (translation helloLower) = toLowerCase (translation hello) \<and>
   history (handleWordDetection_resume False (Fulfilled helloLower) 3 4
              (handleWordDetection_resume False (Fulfilled hello) 1 2 initialApp)) =
     [\<lparr>id_item = ''1'', text_item = ''HELLO'', timestamp = 2, mode = WORD\<rparr>] \<and>
   spoken (handleWordDetection_resume False (Fulfilled helloLower) 3 4
              (handleWordDetection_resume False (Fulfilled hello) 1 2 initialApp)) = [''HELLO''] \<and>
   map text_item
     (history (handleWordDetection_resume False (Fulfilled world) 5 6
        (handleWordDetection_resume False (Fulfilled helloLower) 3 4
           (handleWordDetection_resume False (Fulfilled hello) 1 2 initialApp)))) =
     [''HELLO'', ''WORLD'']"
proof -
  let ?s1 = "handleWordDetection_resume False (Fulfilled hello) 1 2 initialApp"
  have h: "isSign hello" "translation hello \<noteq> []" by (simp_all add: hello_def)
  have e: "history initialApp = []" "speechSynthesis initialApp" "spoken initialApp = []"
    by (simp_all add: initialApp_def)
  have l: "isSign helloLower \<and> translation helloLower \<noteq> [] \<and>
           toLowerCase (translation helloLower) = toLowerCase (translation hello) \<and>
           history ?s1 = history ?s1"
    by code_simp
  note w = word_dedup[OF h, of initialApp False 1 2 helloLower ?s1 False 3 4]
  from w e have first:
    "history ?s1 = [\<lparr>id_item = toString 1, text_item = translation hello, timestamp = 2,
                      mode = WORD\<rparr>]"
    "spoken ?s1 = [translation hello]"
    by simp_all
  from w l have second:
    "history (handleWordDetection_resume False (Fulfilled helloLower) 3 4 ?s1) = history ?s1"
    "spoken (handleWordDetection_resume False (Fulfilled helloLower) 3 4 ?s1) = spoken ?s1"
    by blast+
  have one: "toString 1 = ''1''" by code_simp
  have third: "map text_item
     (history (handleWordDetection_resume False (Fulfilled world) 5 6
        (handleWordDetection_resume False (Fulfilled helloLower) 3 4 ?s1))) =
     [''HELLO'', ''WORLD'']"
    by code_simp
  show ?thesis
    using h e l first second third one by (simp add: hello_def)
qed

text \<open>
  C3 (as amended). The history changes only when the user clears it or when a pending
  call settles with a result whose \<open>isSign\<close> is true; for a word call the translation
  of that result is moreover not the empty string. The item appended carries the
  translation as its text. White space in the translation is not looked at.
\<close>

theorem history_entry_sources:
  "step e \<sigma> = Some \<sigma>' \<and> history (app \<sigma>') \<noteq> history (app \<sigma>) \<longrightarrow>
     (e = ClearHistory \<and> history (app \<sigma>') = []) \<or>
     (\<exists>c muted res t1 t2.
        e = Settle c muted (Fulfilled res) t1 t2 \<and> c \<in> set (pending \<sigma>) \<and> isSign res \<and>
        (isDetectSingle c \<longrightarrow> translation res \<noteq> []) \<and>
        history (app \<sigma>') =
          history (app \<sigma>) @
            [\<lparr>id_item = toString t1, text_item = translation res, timestamp = t2,
              mode = (if isDetectSingle c then WORD else SENTENCE)\<rparr>])"
proof (cases e)
  case (Settle c muted r t1 t2)
  show ?thesis
  proof (cases c)
    case (DetectSingle img lang)
    with Settle show ?thesis
      by (auto simp: word_resume_history split: if_splits settled.splits)
  next
    case (DetectSequence imgs lang)
    with Settle show ?thesis
      by (auto simp: sentence_resume_history split: if_splits settled.splits)
  qed
qed (auto split: if_splits)

theorem history_entry_sources_witness:
  "step (Settle (DetectSingle ''f'' ASL) False (Fulfilled hello) 1 2)
      \<lparr>app = initialApp\<lparr>appState := PROCESSING, processingRef := True\<rparr>,
       pending = [DetectSingle ''f'' ASL]\<rparr>
     = Some \<lparr>app = initialApp\<lparr>appState := SCANNING, currentPrediction := Some hello,
                 history := [\<lparr>id_item = ''1'', text_item = ''HELLO'', timestamp = 2,
                              mode = WORD\<rparr>],
                 spoken := [''HELLO''], appStateLog := [SCANNING]\<rparr>,
             pending = []\<rparr> \<and>
   (\<exists>c muted res t1 t2.
      Settle (DetectSingle ''f'' ASL) False (Fulfilled hello) 1 2
        = Settle c muted (Fulfilled res) t1 t2 \<and>
      isSign res \<and> translation res \<noteq> [])"
proof -
  let ?e = "Settle (DetectSingle ''f'' ASL) False (Fulfilled hello) 1 2"
  let ?a = "\<lparr>app = initialApp\<lparr>appState := PROCESSING, processingRef := True\<rparr>,
             pending = [DetectSingle ''f'' ASL]\<rparr>"
  let ?b = "\<lparr>app = initialApp\<lparr>appState := SCANNING, currentPrediction := Some hello,
                 history := [\<lparr>id_item = ''1'', text_item = ''HELLO'', timestamp = 2,
                              mode = WORD\<rparr>],
                 spoken := [''HELLO''], appStateLog := [SCANNING]\<rparr>,
             pending = []\<rparr>"
  have st: "step ?e ?a = Some ?b" by code_simp
  have ch: "history (app ?b) \<noteq> history (app ?a)" by (simp add: initialApp_def)
  have ne: "?e \<noteq> ClearHistory" by simp
  from history_entry_sources[of ?e ?a ?b] st ch ne
  have "\<exists>c muted res t1 t2.
          ?e = Settle c muted (Fulfilled res) t1 t2 \<and> c \<in> set (pending ?a) \<and> isSign res \<and>
          (isDetectSingle c \<longrightarrow> translation res \<noteq> [])"
    by blast
  then have "\<exists>c muted res t1 t2.
          ?e = Settle c muted (Fulfilled res) t1 t2 \<and> isSign res \<and> translation res \<noteq> []"
    by auto
  with st show ?thesis by blast
qed

text \<open>
  A word result with \<open>isSign\<close> true whose translation is a single space goes into the
  history: from the initial state, a captured frame and the settling of its call with
  that result leave a history of one item, whose text is the space.
\<close>

theorem history_entry_whitespace_counterexample:
  "isSign blank \<and> translation blank = '' '' \<and> list_all isSpace (translation blank) \<and>
   run [FrameCapture ASL ''f'', Settle (DetectSingle ''f'' ASL) False (Fulfilled blank) 1 2]
       \<lparr>app = initialApp, pending = []\<rparr>
     = Some \<lparr>app = initialApp\<lparr>appState := SCANNING, currentPrediction := Some blank,
                 history := [\<lparr>id_item = ''1'', text_item = '' '', timestamp = 2, mode = WORD\<rparr>],
                 spoken := ['' ''], appStateLog := [PROCESSING, SCANNING]\<rparr>,
             pending = []\<rparr>"
  by code_simp



section \<open>The end of a recording\<close>

text \<open>
  C5. A stop of a recording, run from the click to the end of the handler, ends with an
  empty frame buffer, a frame counter of 0 and the state IDLE, having set PROCESSING
  and then IDLE, whatever the buffer held and however the inference call settled. The
  same holds for the second half of the handler alone, from whatever state it is
  resumed in.
\<close>

theorem stop_recording_clears_buffer:
  "(appState s = RECORDING \<longrightarrow>
      framesBufferRef (toggleRecording muted infer t1 t2 s) = [] \<and>
      frameCount (toggleRecording muted infer t1 t2 s) = 0 \<and>
      appState (toggleRecording muted infer t1 t2 s) = IDLE \<and>
      appStateLog (toggleRecording muted infer t1 t2 s) = appStateLog s @ [PROCESSING, IDLE]) \<and>
   framesBufferRef (toggleRecording_resume muted r t1 t2 s') = [] \<and>
   frameCount (toggleRecording_resume muted r t1 t2 s') = 0 \<and>
   appState (toggleRecording_resume muted r t1 t2 s') = IDLE"
  by (auto simp: toggleRecording_def toggleRecording_begin_def toggleRecording_resume_def Let_def
      split: settled.splits)

theorem stop_recording_clears_buffer_witness:
  "appState recordingTwo = RECORDING \<and> framesBufferRef recordingTwo = [''f1'', ''f2''] \<and>
   frameCount recordingTwo = 2 \<and>
   framesBufferRef (toggleRecording False (\<lambda>c. Fulfilled hello) 1 2 recordingTwo) = [] \<and>
   frameCount (toggleRecording False (\<lambda>c. Fulfilled hello) 1 2 recordingTwo) = 0 \<and>
   appState (toggleRecording False (\<lambda>c. Fulfilled hello) 1 2 recordingTwo) = IDLE \<and>
   framesBufferRef (toggleRecording False (\<lambda>c. Rejected) 1 2 recordingTwo) = [] \<and>
   frameCount (toggleRecording False (\<lambda>c. Rejected) 1 2 recordingTwo) = 0 \<and>
   framesBufferRef (toggleRecording False (\<lambda>c. Rejected) 1 2 recordingEmpty) = [] \<and>
   frameCount (toggleRecording False (\<lambda>c. Rejected) 1 2 recordingEmpty) = 0"
proof -
  have two: "appState recordingTwo = RECORDING" "framesBufferRef recordingTwo = [''f1'', ''f2'']"
    "frameCount recordingTwo = 2"
    by (simp_all add: recordingTwo_def recordingEmpty_def)
  have none: "appState recordingEmpty = RECORDING" by (simp add: recordingEmpty_def)
  from stop_recording_clears_buffer[of recordingTwo False "\<lambda>c. Fulfilled hello" 1 2] two(1)
  have "framesBufferRef (toggleRecording False (\<lambda>c. Fulfilled hello) 1 2 recordingTwo) = []"
    and "frameCount (toggleRecording False (\<lambda>c. Fulfilled hello) 1 2 recordingTwo) = 0"
    and "appState (toggleRecording False (\<lambda>c. Fulfilled hello) 1 2 recordingTwo) = IDLE"
    by blast+
  moreover from stop_recording_clears_buffer[of recordingTwo False "\<lambda>c. Rejected" 1 2] two(1)
  have "framesBufferRef (toggleRecording False (\<lambda>c. Rejected) 1 2 recordingTwo) = []"
    and "frameCount (toggleRecording False (\<lambda>c. Rejected) 1 2 recordingTwo) = 0"
    by blast+
  moreover from stop_recording_clears_buffer[of recordingEmpty False "\<lambda>c. Rejected" 1 2] none
  have "framesBufferRef (toggleRecording False (\<lambda>c. Rejected) 1 2 recordingEmpty) = []"
    and "frameCount (toggleRecording False (\<lambda>c. Rejected) 1 2 recordingEmpty) = 0"
    by blast+
  ultimately show ?thesis using two by simp
qed

text \<open>
  C7. Stopping a recording whose buffer is empty issues no inference call, and the click
  takes the component from RECORDING to IDLE in one step: the handler runs to its end
  within the click, without an \<^verbatim>\<open>await\<close>, so no other state is current between two
  events. (Inside that one run the handler calls \<^verbatim>\<open>setAppState\<close> twice, with PROCESSING
  and then with IDLE; the two calls are committed together.) Nothing else changes but
  the frame counter, and the calls pending before the click are the calls pending
  after it.
\<close>

theorem stop_with_empty_buffer:
  "appState s = RECORDING \<and> framesBufferRef s = [] \<longrightarrow>
     toggleRecording_begin s =
       Done (s\<lparr>appState := IDLE, frameCount := 0, framesBufferRef := [],
               appStateLog := appStateLog s @ [PROCESSING, IDLE]\<rparr>) \<and>
     callOf (toggleRecording_begin s) = None \<and>
     appState (stateOf (toggleRecording_begin s)) = IDLE \<and>
     appState (toggleRecording muted infer t1 t2 s) = IDLE \<and>
     toggleRecording muted infer t1 t2 s = stateOf (toggleRecording_begin s) \<and>
     (isCameraActive s \<and> detectionMode s = SENTENCE \<longrightarrow>
        step RecordButton \<lparr>app = s, pending = ps\<rparr> =
          Some \<lparr>app = s\<lparr>appState := IDLE, frameCount := 0, framesBufferRef := [],
                          appStateLog := appStateLog s @ [PROCESSING, IDLE]\<rparr>,
                pending = ps\<rparr>)"
  by (simp add: toggleRecording_def toggleRecording_begin_def toggleRecording_end_def
      setAppState_def Let_def recordButton_onClick_def)

theorem stop_with_empty_buffer_witness:
  "appState recordingEmpty = RECORDING \<and> framesBufferRef recordingEmpty = [] \<and>
   isCameraActive recordingEmpty \<and> detectionMode recordingEmpty = SENTENCE \<and>
   callOf (toggleRecording_begin recordingEmpty) = None \<and>
   appState (toggleRecording False (\<lambda>c. Fulfilled hello) 1 2 recordingEmpty) = IDLE \<and>
   history (toggleRecording False (\<lambda>c. Fulfilled hello) 1 2 recordingEmpty) = [] \<and>
   step RecordButton \<lparr>app = recordingEmpty, pending = []\<rparr> =
     Some \<lparr>app = initialApp\<lparr>detectionMode := SENTENCE, isCameraActive := True,
                     appStateLog := [RECORDING, PROCESSING, IDLE]\<rparr>,
           pending = []\<rparr> \<and>
   run [CameraButton, ModeButton SENTENCE, RecordButton, RecordButton]
       \<lparr>app = initialApp, pending = []\<rparr>
     = Some \<lparr>app = initialApp\<lparr>detectionMode := SENTENCE, isCameraActive := True,
                       appStateLog := [RECORDING, PROCESSING, IDLE]\<rparr>,
             pending = []\<rparr>"
proof -
  have h: "appState recordingEmpty = RECORDING \<and> framesBufferRef recordingEmpty = []"
    by (simp add: recordingEmpty_def initialApp_def)
  have g: "isCameraActive recordingEmpty \<and> detectionMode recordingEmpty = SENTENCE"
    by (simp add: recordingEmpty_def initialApp_def)
  note w = stop_with_empty_buffer[of recordingEmpty False "\<lambda>c. Fulfilled hello" 1 2 "[]"]
  from w h
  have "callOf (toggleRecording_begin recordingEmpty) = None"
    and "appState (toggleRecording False (\<lambda>c. Fulfilled hello) 1 2 recordingEmpty) = IDLE"
    and "toggleRecording False (\<lambda>c. Fulfilled hello) 1 2 recordingEmpty
           = stateOf (toggleRecording_begin recordingEmpty)"
    by blast+
  moreover from w h g
  have "step RecordButton \<lparr>app = recordingEmpty, pending = []\<rparr> =
          Some \<lparr>app = recordingEmpty\<lparr>appState := IDLE, frameCount := 0, framesBufferRef := [],
                          appStateLog := appStateLog recordingEmpty @ [PROCESSING, IDLE]\<rparr>,
                pending = []\<rparr>"
    by blast
  moreover have "history recordingEmpty = []" by (simp add: recordingEmpty_def initialApp_def)
  moreover have "run [CameraButton, ModeButton SENTENCE, RecordButton, RecordButton]
       \<lparr>app = initialApp, pending = []\<rparr>
     = Some \<lparr>app = initialApp\<lparr>detectionMode := SENTENCE, isCameraActive := True,
                       appStateLog := [RECORDING, PROCESSING, IDLE]\<rparr>,
             pending = []\<rparr>"
    by code_simp
  ultimately show ?thesis using h g by (simp add: recordingEmpty_def initialApp_def)
qed

text \<open>
  C8. A sentence result with \<open>isSign\<close> true is appended to the history whatever the
  history holds: the second half of \<^verbatim>\<open>toggleRecording\<close> appends one SENTENCE item with
  the translation as its text, and so does the whole handler on a recording with at
  least one frame whose inference call is fulfilled with that result.
\<close>

theorem sentence_no_dedup:
  "isSign res \<longrightarrow>
     history (toggleRecording_resume muted (Fulfilled res) t1 t2 s') =
       history s' @ [\<lparr>id_item = toString t1, text_item = translation res, timestamp = t2,
                       mode = SENTENCE\<rparr>] \<and>
     (appState s = RECORDING \<and> framesBufferRef s \<noteq> [] \<and>
      infer (DetectSequence (framesBufferRef s) (signLanguage s)) = Fulfilled res \<longrightarrow>
        history (toggleRecording muted infer t1 t2 s) =
          history s @ [\<lparr>id_item = toString t1, text_item = translation res, timestamp = t2,
                         mode = SENTENCE\<rparr>])"
  by (auto simp: sentence_resume_history toggleRecording_def toggleRecording_begin_def Let_def)

theorem sentence_no_dedup_witness:
  "isSign hello \<and> isSign helloLower \<and>
   toLowerCase (translation helloLower) = toLowerCase (translation hello) \<and>
   appState recordingTwo = RECORDING \<and> framesBufferRef recordingTwo \<noteq> [] \<and>
   history (toggleRecording False (\<lambda>c. Fulfilled hello) 1 2 recordingTwo) =
     [\<lparr>id_item = ''1'', text_item = ''HELLO'', timestamp = 2, mode = SENTENCE\<rparr>] \<and>
   history (toggleRecording_resume False (Fulfilled helloLower) 3 4
              (toggleRecording False (\<lambda>c. Fulfilled hello) 1 2 recordingTwo)) =
     [\<lparr>id_item = ''1'', text_item = ''HELLO'', timestamp = 2, mode = SENTENCE\<rparr>,
      \<lparr>id_item = ''3'', text_item = ''hello'', timestamp = 4, mode = SENTENCE\<rparr>]"
proof -
  let ?s1 = "toggleRecording False (\<lambda>c. Fulfilled hello) 1 2 recordingTwo"
  have h: "isSign hello" "isSign helloLower" by (simp_all add: hello_def helloLower_def)
  have lc: "toLowerCase (translation helloLower) = toLowerCase (translation hello)"
    by code_simp
  have pre: "appState recordingTwo = RECORDING \<and> framesBufferRef recordingTwo \<noteq> [] \<and>
             (\<lambda>c. Fulfilled hello)
               (DetectSequence (framesBufferRef recordingTwo) (signLanguage recordingTwo))
               = Fulfilled hello"
    by (simp add: recordingTwo_def recordingEmpty_def)
  have e: "history recordingTwo = []"
    by (simp add: recordingTwo_def recordingEmpty_def initialApp_def)
  have n: "toString 1 = ''1''" "toString 3 = ''3''" by code_simp+
  from sentence_no_dedup[of hello False 1 2 _ recordingTwo "\<lambda>c. Fulfilled hello"] h(1) pre
  have first: "history ?s1 = history recordingTwo @
      [\<lparr>id_item = toString 1, text_item = translation hello, timestamp = 2, mode = SENTENCE\<rparr>]"
    by blast
  from sentence_no_dedup[of helloLower False 3 4 ?s1] h(2)
  have second: "history (toggleRecording_resume False (Fulfilled helloLower) 3 4 ?s1) =
      history ?s1 @
      [\<lparr>id_item = toString 3, text_item = translation helloLower, timestamp = 4,
        mode = SENTENCE\<rparr>]"
    by blast
  show ?thesis
    using h lc pre first second e n by (simp add: hello_def helloLower_def)
qed



section \<open>Inference failures\<close>

lemma word_failure_state:
  "\<not> (isSign res \<and> translation res \<noteq> []) \<Longrightarrow>
   handleWordDetection_resume muted (Fulfilled res) t1 t2 s =
     s\<lparr>appState := SCANNING,
       currentPrediction :=
         map_option (\<lambda>prev. prev\<lparr>description := Some ''No clear sign detected''\<rparr>)
           (currentPrediction s),
       processingRef := False,
       appStateLog := appStateLog s @ [SCANNING]\<rparr>"
  by (auto simp: handleWordDetection_resume_def Let_def setAppState_def)

lemma word_rejected_state:
  "handleWordDetection_resume muted Rejected t1 t2 s =
     s\<lparr>appState := SCANNING, processingRef := False, appStateLog := appStateLog s @ [SCANNING]\<rparr>"
  by (simp add: handleWordDetection_resume_def Let_def setAppState_def)

lemma sentence_failure_state:
  "\<not> isSign res \<Longrightarrow>
   toggleRecording_resume muted (Fulfilled res) t1 t2 s =
     s\<lparr>appState := IDLE, currentPrediction := Some couldNotUnderstand, frameCount := 0,
       framesBufferRef := [], appStateLog := appStateLog s @ [IDLE]\<rparr>"
  by (simp add: toggleRecording_resume_def toggleRecording_end_def setAppState_def)

lemma sentence_rejected_state:
  "toggleRecording_resume muted Rejected t1 t2 s =
     s\<lparr>appState := IDLE, frameCount := 0, framesBufferRef := [],
       appStateLog := appStateLog s @ [IDLE]\<rparr>"
  by (simp add: toggleRecording_resume_def toggleRecording_end_def setAppState_def)

lemma wrapper_failure_results:
  "detectSignLanguage_try generate parse img lang = Inl e \<Longrightarrow>
     detectSignLanguage generate parse img lang = wordErrorResult"
  "detectSignSentence_try generate parse imgs lang = Inl e \<Longrightarrow>
     detectSignSentence generate parse imgs lang = sentenceErrorResult"
  by (simp_all add: detectSignLanguage_def detectSignSentence_def)

text \<open>
  C6 (as amended). When the inference behind a word call fails (the wrapper's \<^verbatim>\<open>try\<close> block
  throws, so the call is fulfilled with the wrapper's fixed result) or the awaited call
  is rejected, the handler leaves history and spoken texts as they were and sets the
  state to SCANNING, whatever the state was before the call; besides the state and the guard it changes at most the current
  prediction, whose description becomes the no-clear-sign text when there is a
  prediction. For a sentence call the state is set to IDLE, whatever it was before, buffer and counter are
  cleared, and the current prediction becomes the could-not-understand result (it stays
  as it was on a rejection). In neither case is the state ERROR. The same holds for the
  handlers run from start to end over the two wrappers: a frame in word mode whose
  inference fails, and the stop of a recording whose inference fails.
\<close>

theorem inference_failure_recovered:
  "((detectSignLanguage_try generate parse img lang = Inl e \<and>
     r = Fulfilled (detectSignLanguage generate parse img lang)) \<or> r = Rejected \<longrightarrow>
      history (handleWordDetection_resume muted r t1 t2 s) = history s \<and>
      spoken (handleWordDetection_resume muted r t1 t2 s) = spoken s \<and>
      appState (handleWordDetection_resume muted r t1 t2 s) = SCANNING \<and>
      handleWordDetection_resume muted r t1 t2 s =
        s\<lparr>appState := SCANNING,
          currentPrediction :=
            (if r = Rejected then currentPrediction s
             else map_option (\<lambda>prev. prev\<lparr>description := Some ''No clear sign detected''\<rparr>)
                    (currentPrediction s)),
          processingRef := False,
          appStateLog := appStateLog s @ [SCANNING]\<rparr>) \<and>
   ((detectSignSentence_try generate parse imgs lang = Inl e \<and>
     r' = Fulfilled (detectSignSentence generate parse imgs lang)) \<or> r' = Rejected \<longrightarrow>
      history (toggleRecording_resume muted r' t1 t2 s) = history s \<and>
      spoken (toggleRecording_resume muted r' t1 t2 s) = spoken s \<and>
      appState (toggleRecording_resume muted r' t1 t2 s) = IDLE \<and>
      toggleRecording_resume muted r' t1 t2 s =
        s\<lparr>appState := IDLE,
          currentPrediction :=
            (if r' = Rejected then currentPrediction s else Some couldNotUnderstand),
          frameCount := 0, framesBufferRef := [],
          appStateLog := appStateLog s @ [IDLE]\<rparr>) \<and>
   (\<not> processingRef s \<and>
    detectSignLanguage_try generate parse img lang = Inl e \<longrightarrow>
      history (handleWordDetection lang muted (inferenceClient generate parse) t1 t2 img s)
        = history s \<and>
      spoken (handleWordDetection lang muted (inferenceClient generate parse) t1 t2 img s)
        = spoken s \<and>
      appState (handleWordDetection lang muted (inferenceClient generate parse) t1 t2 img s)
        = SCANNING) \<and>
   (appState s = RECORDING \<and> framesBufferRef s \<noteq> [] \<and>
    detectSignSentence_try generate parse (framesBufferRef s) (signLanguage s) = Inl e \<longrightarrow>
      history (toggleRecording muted (inferenceClient generate parse) t1 t2 s) = history s \<and>
      spoken (toggleRecording muted (inferenceClient generate parse) t1 t2 s) = spoken s \<and>
      appState (toggleRecording muted (inferenceClient generate parse) t1 t2 s) = IDLE)"
proof (intro conjI impI)
  assume a: "(detectSignLanguage_try generate parse img lang = Inl e \<and>
     r = Fulfilled (detectSignLanguage generate parse img lang)) \<or> r = Rejected"
  then have r: "r = Fulfilled wordErrorResult \<or> r = Rejected"
    by (auto simp: wrapper_failure_results)
  have w: "\<not> (isSign wordErrorResult \<and> translation wordErrorResult \<noteq> [])"
    by (simp add: wordErrorResult_def)
  show "history (handleWordDetection_resume muted r t1 t2 s) = history s"
    using r w by (auto simp: word_resume_history)
  show "spoken (handleWordDetection_resume muted r t1 t2 s) = spoken s"
    using r w by (auto simp: word_resume_spoken)
  show "appState (handleWordDetection_resume muted r t1 t2 s) = SCANNING"
    by (simp add: handleWordDetection_resume_def Let_def)
  show "handleWordDetection_resume muted r t1 t2 s =
        s\<lparr>appState := SCANNING,
          currentPrediction :=
            (if r = Rejected then currentPrediction s
             else map_option (\<lambda>prev. prev\<lparr>description := Some ''No clear sign detected''\<rparr>)
                    (currentPrediction s)),
          processingRef := False,
          appStateLog := appStateLog s @ [SCANNING]\<rparr>"
    using r word_failure_state[OF w, of muted t1 t2 s] word_rejected_state[of muted t1 t2 s]
    by auto
next
  assume a: "(detectSignSentence_try generate parse imgs lang = Inl e \<and>
     r' = Fulfilled (detectSignSentence generate parse imgs lang)) \<or> r' = Rejected"
  then have r: "r' = Fulfilled sentenceErrorResult \<or> r' = Rejected"
    by (auto simp: wrapper_failure_results)
  have w: "\<not> isSign sentenceErrorResult"
    by (simp add: sentenceErrorResult_def)
  show "history (toggleRecording_resume muted r' t1 t2 s) = history s"
    using r w by (auto simp: sentence_resume_history)
  show "spoken (toggleRecording_resume muted r' t1 t2 s) = spoken s"
    using r w by (auto simp: sentence_resume_spoken)
  show "appState (toggleRecording_resume muted r' t1 t2 s) = IDLE"
    by (simp add: toggleRecording_resume_def)
  show "toggleRecording_resume muted r' t1 t2 s =
        s\<lparr>appState := IDLE,
          currentPrediction :=
            (if r' = Rejected then currentPrediction s else Some couldNotUnderstand),
          frameCount := 0, framesBufferRef := [],
          appStateLog := appStateLog s @ [IDLE]\<rparr>"
    using r sentence_failure_state[OF w, of muted t1 t2 s]
      sentence_rejected_state[of muted t1 t2 s]
    by auto
next
  assume a: "\<not> processingRef s \<and>
    detectSignLanguage_try generate parse img lang = Inl e"
  let ?s1 = "setAppState PROCESSING (s\<lparr>processingRef := True\<rparr>)"
  have run: "handleWordDetection lang muted (inferenceClient generate parse) t1 t2 img s =
      handleWordDetection_resume muted (Fulfilled wordErrorResult) t1 t2 ?s1"
    using a by (simp add: handleWordDetection_def handleWordDetection_begin_def
        inferenceClient_def wrapper_failure_results)
  have w: "\<not> (isSign wordErrorResult \<and> translation wordErrorResult \<noteq> [])"
    by (simp add: wordErrorResult_def)
  show "history (handleWordDetection lang muted (inferenceClient generate parse) t1 t2 img s)
          = history s"
    using w by (simp add: run word_resume_history)
  show "spoken (handleWordDetection lang muted (inferenceClient generate parse) t1 t2 img s)
          = spoken s"
    using w by (simp add: run word_resume_spoken)
  show "appState (handleWordDetection lang muted (inferenceClient generate parse) t1 t2 img s)
          = SCANNING"
    by (simp add: run handleWordDetection_resume_def Let_def)
next
  assume a: "appState s = RECORDING \<and> framesBufferRef s \<noteq> [] \<and>
    detectSignSentence_try generate parse (framesBufferRef s) (signLanguage s) = Inl e"
  have run: "toggleRecording muted (inferenceClient generate parse) t1 t2 s =
      toggleRecording_resume muted (Fulfilled sentenceErrorResult) t1 t2
        (setAppState PROCESSING s)"
    using a by (simp add: toggleRecording_def toggleRecording_begin_def Let_def
        inferenceClient_def wrapper_failure_results)
  have w: "\<not> isSign sentenceErrorResult"
    by (simp add: sentenceErrorResult_def)
  show "history (toggleRecording muted (inferenceClient generate parse) t1 t2 s) = history s"
    using w by (simp add: run sentence_resume_history)
  show "spoken (toggleRecording muted (inferenceClient generate parse) t1 t2 s) = spoken s"
    using w by (simp add: run sentence_resume_spoken)
  show "appState (toggleRecording muted (inferenceClient generate parse) t1 t2 s) = IDLE"
    by (simp add: run toggleRecording_resume_def)
qed

theorem inference_failure_recovered_witness:
  "detectSignLanguage_try (\<lambda>q. RequestFailed) (\<lambda>t. None) ''f'' ASL = Inl RequestError \<and>
   handleWordDetection_resume False
       (Fulfilled (detectSignLanguage (\<lambda>q. RequestFailed) (\<lambda>t. None) ''f'' ASL)) 1 2
       (initialApp\<lparr>appState := PROCESSING, processingRef := True,
                   currentPrediction := Some hello\<rparr>)
     = initialApp\<lparr>appState := SCANNING,
                  currentPrediction := Some (hello\<lparr>description := Some ''No clear sign detected''\<rparr>),
                  appStateLog := [SCANNING]\<rparr> \<and>
   detectSignSentence_try (\<lambda>q. Response None) (\<lambda>t. None) [''f1'', ''f2''] ASL
     = Inl NoResponseText \<and>
   toggleRecording_resume False
       (Fulfilled (detectSignSentence (\<lambda>q. Response None) (\<lambda>t. None) [''f1'', ''f2''] ASL)) 1 2
       (recordingTwo\<lparr>appState := PROCESSING\<rparr>)
     = recordingTwo\<lparr>appState := IDLE, currentPrediction := Some couldNotUnderstand,
                    frameCount := 0, framesBufferRef := [], appStateLog := [RECORDING, IDLE]\<rparr>"
proof -
  let ?w = "Fulfilled (detectSignLanguage (\<lambda>q. RequestFailed) (\<lambda>t. None) ''f'' ASL)"
  let ?v = "Fulfilled (detectSignSentence (\<lambda>q. Response None) (\<lambda>t. None) [''f1'', ''f2''] ASL)"
  let ?s = "initialApp\<lparr>appState := PROCESSING, processingRef := True,
                       currentPrediction := Some hello\<rparr>"
  let ?t = "recordingTwo\<lparr>appState := PROCESSING\<rparr>"
  have fw: "detectSignLanguage_try (\<lambda>q. RequestFailed) (\<lambda>t. None) ''f'' ASL = Inl RequestError"
    by (simp add: detectSignLanguage_try_def readResponse_def)
  have fs: "detectSignSentence_try (\<lambda>q. Response None) (\<lambda>t. None) [''f1'', ''f2''] ASL
              = Inl NoResponseText"
    by (simp add: detectSignSentence_try_def readResponse_def)
  have nw: "?w \<noteq> Rejected" and nv: "?v \<noteq> Rejected" by simp_all
  from inference_failure_recovered[where generate = "\<lambda>q. RequestFailed" and parse = "\<lambda>t. None"
      and img = "''f''" and lang = ASL and e = RequestError and r = ?w and muted = False
      and ?t1.0 = 1 and ?t2.0 = 2 and s = ?s] fw nw
  have w: "handleWordDetection_resume False ?w 1 2 ?s =
        ?s\<lparr>appState := SCANNING,
          currentPrediction :=
            map_option (\<lambda>prev. prev\<lparr>description := Some ''No clear sign detected''\<rparr>)
              (currentPrediction ?s),
          processingRef := False,
          appStateLog := appStateLog ?s @ [SCANNING]\<rparr>"
    by simp
  from inference_failure_recovered[where generate = "\<lambda>q. Response None" and parse = "\<lambda>t. None"
      and imgs = "[''f1'', ''f2'']" and lang = ASL and e = NoResponseText and r' = ?v
      and muted = False and ?t1.0 = 1 and ?t2.0 = 2 and s = ?t] fs nv
  have v: "toggleRecording_resume False ?v 1 2 ?t =
        ?t\<lparr>appState := IDLE, currentPrediction := Some couldNotUnderstand,
          frameCount := 0, framesBufferRef := [],
          appStateLog := appStateLog ?t @ [IDLE]\<rparr>"
    by simp
  show ?thesis
    using fw fs w v by (simp add: initialApp_def recordingTwo_def recordingEmpty_def)
qed

text \<open>
  The state after a failed call is not always the state before it. The first frame
  after the start finds the state IDLE, and when its inference fails the state is
  SCANNING; a recording is stopped in the state RECORDING, and when the inference of
  its frames fails the state is IDLE.
\<close>

theorem inference_failure_precall_counterexample:
  "appState initialApp = IDLE \<and>
   detectSignLanguage_try (\<lambda>q. RequestFailed) (\<lambda>t. None) ''f'' ASL = Inl RequestError \<and>
   appState (handleWordDetection ASL False (inferenceClient (\<lambda>q. RequestFailed) (\<lambda>t. None))
               1 2 ''f'' initialApp) = SCANNING \<and>
   appState (handleWordDetection ASL False (inferenceClient (\<lambda>q. RequestFailed) (\<lambda>t. None))
               1 2 ''f'' initialApp) \<noteq> appState initialApp \<and>
   runTimed [CameraButton, FrameCapture ASL ''f'',
             Settle (DetectSingle ''f'' ASL) False
               (Fulfilled (detectSignLanguage (\<lambda>q. RequestFailed) (\<lambda>t. None) ''f'' ASL)) 1 2]
       \<lparr>app = initialApp, pending = []\<rparr>
     = Some \<lparr>app = initialApp\<lparr>appState := SCANNING, isCameraActive := True,
                               appStateLog := [PROCESSING, SCANNING]\<rparr>,
             pending = []\<rparr> \<and>
   appState recordingTwo = RECORDING \<and>
   detectSignSentence_try (\<lambda>q. RequestFailed) (\<lambda>t. None) [''f1'', ''f2''] ASL
     = Inl RequestError \<and>
   appState (toggleRecording False (inferenceClient (\<lambda>q. RequestFailed) (\<lambda>t. None))
               1 2 recordingTwo) = IDLE"
  by code_simp


section \<open>The mode switch\<close>






end
